theory Spec2Isabelle
  imports Main "HOL-Library.Multiset" "HOL-Library.Sublist"
begin

section \<open>Data model of \<^verbatim>\<open>hass_driver.py\<close>\<close>

text \<open>
  A \<^verbatim>\<open>datetime\<close> is a point of the simulated time line, counted in whole seconds; a
  \<^verbatim>\<open>timedelta(seconds=n)\<close> is the integer \<open>n\<close>. The time line is unbounded: the
  \<^verbatim>\<open>OverflowError\<close> of a \<^verbatim>\<open>datetime\<close> beyond the year 9999 is not modelled. Callbacks are opaque references, the
  values stored in entity attributes and keyword arguments are Python scalars, and a
  \<^verbatim>\<open>dict\<close> is an association list in insertion order.
\<close>

type_synonym instant = int
type_synonym handle = string
type_synonym callback = nat

datatype pyval = PNone | PBool bool | PInt int | PStr string

type_synonym kwargs = "(string \<times> pyval) list"
type_synonym attrs = "(string \<times> pyval) list"

text \<open>The dataclass \<^verbatim>\<open>StateSpy\<close> (lines 30-36).\<close>

record StateSpy =
  spy_callback :: callback
  spy_attribute :: "string option"
  spy_new :: pyval
  spy_old :: pyval
  spy_kwargs :: kwargs

text \<open>
  The dataclass \<^verbatim>\<open>Scheduler\<close> (lines 39-50); \<^verbatim>\<open>__post_init__\<close> sets
  \<^verbatim>\<open>last_run\<close> to \<^verbatim>\<open>start\<close>.
\<close>

record Scheduler =
  start :: instant
  frequency_sec :: int
  callback :: callback
  kwargs :: kwargs
  run_count :: int
  last_run :: instant
  is_canceled :: bool

definition new_Scheduler :: "instant \<Rightarrow> int \<Rightarrow> callback \<Rightarrow> kwargs \<Rightarrow> Scheduler" where
  "new_Scheduler st freq cb kw =
     \<lparr>start = st, frequency_sec = freq, callback = cb, kwargs = kw,
      run_count = 0, last_run = st, is_canceled = False\<rparr>"

text \<open>
  The state of a \<^verbatim>\<open>HassDriver\<close> object (lines 54-94). Of the \<^verbatim>\<open>_mocks\<close> dictionary the
  state keeps what can differ between two drivers: the \<^verbatim>\<open>return_value\<close> of the
  \<^verbatim>\<open>time\<close>, \<^verbatim>\<open>datetime\<close> and \<^verbatim>\<open>date\<close> mocks. \<^verbatim>\<open>_state_spys\<close> is a
  \<^verbatim>\<open>defaultdict\<close> with default \<^verbatim>\<open>[]\<close> that is only ever read by key, so it is a total
  function; \<^verbatim>\<open>_states\<close> and \<^verbatim>\<open>_schedulers\<close> are iterated, so they keep their order.
\<close>

record HassDriver =
  base_datetime :: instant
  current_datetime :: instant
  setup_active :: bool
  mock_time_return_value :: int
  mock_datetime_return_value :: instant
  mock_date_return_value :: int
  update_states :: bool
  states :: "(string \<times> attrs) list"
  state_spys :: "string option \<Rightarrow> StateSpy list"
  schedulers :: "(handle \<times> Scheduler) list"

subsection \<open>Exceptions, callbacks and outcomes\<close>

datatype exn = ValueError | KeyError | CallbackError nat

text \<open>
  What a callback is called with: \<^verbatim>\<open>callback(**kwargs)\<close> from the scheduler, and
  \<^verbatim>\<open>callback(entity, attribute, old, new, kwargs)\<close> from \<^verbatim>\<open>set_state\<close>, where old and new
  are single values or whole attribute dictionaries.
\<close>

datatype param = Value pyval | Snapshot attrs

datatype invocation =
  TimerCall callback kwargs
| StateCall callback string "string option" param param kwargs

text \<open>
  The code run by a callback is not part of the driver: it is a parameter of the model. A
  callback receives the driver as it stands, may change it in any way, and either returns
  or raises.
\<close>

type_synonym call = "invocation \<Rightarrow> HassDriver \<Rightarrow> exn option \<times> HassDriver"

text \<open>
  An operation either raises or returns; in both cases the driver is left as it was at
  that moment (nothing is rolled back), and the outcome lists the callbacks the operation
  has invoked, in order.
\<close>

datatype ('a, 't) outcome =
  Raises exn "'t list" HassDriver
| Returns 'a "'t list" HassDriver

section \<open>The virtual clock and the scheduler\<close>

definition simulation_time :: "HassDriver \<Rightarrow> instant" where
  "simulation_time d = current_datetime d"

type_synonym due = "instant \<times> callback \<times> kwargs"

text \<open>
  The \<^verbatim>\<open>while\<close> loop of a repeating schedule (lines 119-124). It is entered only from the
  branch with \<^verbatim>\<open>frequency_sec >= 1\<close>, which is what makes it stop.
\<close>

function due_loop ::
  "instant \<Rightarrow> instant \<Rightarrow> instant \<Rightarrow> Scheduler \<Rightarrow> due list \<Rightarrow> due list \<times> Scheduler" where
  "due_loop now new_datetime next s callbacks_due =
     (if 1 \<le> frequency_sec s \<and> next \<le> new_datetime then
        (if now \<le> next then
           due_loop now new_datetime (next + frequency_sec s)
             (s\<lparr>run_count := run_count s + 1, last_run := last_run s + frequency_sec s\<rparr>)
             (callbacks_due @ [(next, callback s, kwargs s)])
         else due_loop now new_datetime (next + frequency_sec s) s callbacks_due)
      else (callbacks_due, s))"
  by pat_completeness auto
termination
  by (relation "measure (\<lambda>(now, new_datetime, next, s, callbacks_due). nat (new_datetime - next + 1))")
     auto

declare due_loop.simps [simp del]

text \<open>The body of the \<^verbatim>\<open>for\<close> loop over the schedule records (lines 107-124).\<close>

definition visit_scheduler ::
  "instant \<Rightarrow> instant \<Rightarrow> Scheduler \<Rightarrow> due list \<Rightarrow> due list \<times> Scheduler" where
  "visit_scheduler now new_datetime s callbacks_due =
     (if frequency_sec s < 1 \<and>
         (is_canceled s \<or> start s < now \<or> new_datetime < start s \<or>
          (start s = now \<and> 0 < run_count s))
      then (callbacks_due, s)
      else if frequency_sec s < 1
      then (callbacks_due @ [(start s, callback s, kwargs s)], s\<lparr>run_count := run_count s + 1\<rparr>)
      else due_loop now new_datetime (last_run s) s callbacks_due)"

text \<open>The \<^verbatim>\<open>for\<close> loop itself (lines 105-124): the records are visited in dictionary order.\<close>

fun collect_due ::
  "instant \<Rightarrow> instant \<Rightarrow> (handle \<times> Scheduler) list \<Rightarrow> due list
     \<Rightarrow> due list \<times> (handle \<times> Scheduler) list" where
  "collect_due now new_datetime [] callbacks_due = (callbacks_due, [])"
| "collect_due now new_datetime ((h, s) # rest) callbacks_due =
     (case visit_scheduler now new_datetime s callbacks_due of
        (due1, s1) \<Rightarrow>
          (case collect_due now new_datetime rest due1 of
             (due2, rest1) \<Rightarrow> (due2, (h, s1) # rest1)))"

text \<open>
  The loop that invokes the callbacks (lines 126-127). It stops at the first callback that
  raises.
\<close>

fun invoke_all :: "call \<Rightarrow> due list \<Rightarrow> HassDriver \<Rightarrow> due list \<Rightarrow> (unit, due) outcome" where
  "invoke_all call [] d tr = Returns () tr d"
| "invoke_all call ((t, cb, kw) # rest) d tr =
     (case call (TimerCall cb kw) d of
        (Some e, d1) \<Rightarrow> Raises e (tr @ [(t, cb, kw)]) d1
      | (None, d1) \<Rightarrow> invoke_all call rest d1 (tr @ [(t, cb, kw)]))"

text \<open>
  \<^verbatim>\<open>time_travel_to\<close> (lines 100-129). Python's \<^verbatim>\<open>sorted\<close> is a stable sort, as
  \<^const>\<open>sort_key\<close> is.
\<close>

definition time_travel_to :: "call \<Rightarrow> HassDriver \<Rightarrow> instant \<Rightarrow> (unit, due) outcome" where
  "time_travel_to call d new_datetime =
     (if new_datetime = simulation_time d then Returns () [] d
      else if new_datetime < simulation_time d then Raises ValueError [] d
      else
        (case collect_due (simulation_time d) new_datetime (schedulers d) [] of
           (callbacks_due, scheds) \<Rightarrow>
             (case invoke_all call (sort_key fst callbacks_due) (d\<lparr>schedulers := scheds\<rparr>) [] of
                Raises e tr d1 \<Rightarrow> Raises e tr d1
              | Returns u tr d1 \<Rightarrow> Returns () tr (d1\<lparr>current_datetime := new_datetime\<rparr>))))"

section \<open>The entity state store and its observers\<close>

text \<open>Truth value and \<^verbatim>\<open>==\<close> of Python scalars (\<^verbatim>\<open>True == 1\<close> and \<^verbatim>\<open>False == 0\<close>).\<close>

fun truthy :: "pyval \<Rightarrow> bool" where
  "truthy PNone = False"
| "truthy (PBool b) = b"
| "truthy (PInt n) = (n \<noteq> 0)"
| "truthy (PStr s) = (s \<noteq> [])"

fun py_eq :: "pyval \<Rightarrow> pyval \<Rightarrow> bool" where
  "py_eq PNone PNone = True"
| "py_eq (PBool a) (PBool b) = (a = b)"
| "py_eq (PBool a) (PInt n) = ((if a then 1 else 0) = n)"
| "py_eq (PInt n) (PBool b) = (n = (if b then 1 else 0))"
| "py_eq (PInt m) (PInt n) = (m = n)"
| "py_eq (PStr s) (PStr t) = (s = t)"
| "py_eq _ _ = False"

text \<open>\<^verbatim>\<open>a or b\<close>.\<close>

definition py_or :: "pyval \<Rightarrow> pyval \<Rightarrow> pyval" where
  "py_or a b = (if truthy a then a else b)"

definition param_truthy :: "param \<Rightarrow> bool" where
  "param_truthy p = (case p of Value v \<Rightarrow> truthy v | Snapshot a \<Rightarrow> a \<noteq> [])"

text \<open>
  Dictionaries: \<^verbatim>\<open>d[k] = v\<close> keeps the place of a key that is present and appends a new
  one; \<^verbatim>\<open>d.get(k)\<close> is \<^verbatim>\<open>None\<close> for a missing key; \<^verbatim>\<open>a | b\<close> lets \<open>b\<close> win.
\<close>

fun dict_set :: "'k \<Rightarrow> 'v \<Rightarrow> ('k \<times> 'v) list \<Rightarrow> ('k \<times> 'v) list" where
  "dict_set k v [] = [(k, v)]"
| "dict_set k v ((k', v') # rest) =
     (if k' = k then (k', v) # rest else (k', v') # dict_set k v rest)"

definition dict_get :: "attrs \<Rightarrow> string \<Rightarrow> pyval" where
  "dict_get a k = (case map_of a k of None \<Rightarrow> PNone | Some v \<Rightarrow> v)"

definition dict_merge :: "kwargs \<Rightarrow> kwargs \<Rightarrow> kwargs" where
  "dict_merge a b = fold (\<lambda>(k, v) acc. dict_set k v acc) b a"

text \<open>\<^verbatim>\<open>s.split(".")\<close>.\<close>

fun split_dot :: "string \<Rightarrow> string list" where
  "split_dot [] = [[]]"
| "split_dot (c # cs) =
     (if c = CHR ''.'' then [] # split_dot cs
      else (case split_dot cs of [] \<Rightarrow> [[c]] | w # ws \<Rightarrow> (c # w) # ws))"

text \<open>
  \<^verbatim>\<open>self._states[entity]\<close>: the \<^verbatim>\<open>defaultdict\<close> stores \<^verbatim>\<open>{"state": None}\<close> under a key
  that is read for the first time.
\<close>

definition states_getitem ::
  "(string \<times> attrs) list \<Rightarrow> string \<Rightarrow> attrs \<times> (string \<times> attrs) list" where
  "states_getitem sts entity =
     (case map_of sts entity of
        Some a \<Rightarrow> (a, sts)
      | None \<Rightarrow> ([(''state'', PNone)], sts @ [(entity, [(''state'', PNone)])]))"

text \<open>
  The notification loop of \<^verbatim>\<open>set_state\<close> (lines 215-225). \<^verbatim>\<open>state_entry\<close> is the
  dictionary object stored under \<^verbatim>\<open>entity\<close>: \<^verbatim>\<open>copy(state_entry)\<close> reads what the driver
  holds for the entity at that moment, also after a callback has changed it.
\<close>

fun notify_spies ::
  "call \<Rightarrow> StateSpy list \<Rightarrow> string \<Rightarrow> string \<Rightarrow> attrs \<Rightarrow> attrs \<Rightarrow> pyval \<Rightarrow> pyval \<Rightarrow> kwargs
     \<Rightarrow> HassDriver \<Rightarrow> invocation list \<Rightarrow> (unit, invocation) outcome" where
  "notify_spies call [] entity attribute_name state_entry prev_state old_value new_value kw d tr =
     Returns () tr d"
| "notify_spies call (spy # rest) entity attribute_name state_entry prev_state old_value
       new_value kw d tr =
     (let whole = (spy_attribute spy = Some ''all'');
          sat_attr = (spy_attribute spy = Some attribute_name \<or> whole);
          sat_new = (spy_new spy = PNone \<or> py_eq (spy_new spy) new_value);
          sat_old = (spy_old spy = PNone \<or> py_eq (spy_old spy) old_value);
          entry = (case map_of (states d) entity of Some a \<Rightarrow> a | None \<Rightarrow> state_entry);
          param_old = (if whole then Snapshot prev_state else Value old_value);
          param_new = (if whole then Snapshot entry else Value new_value);
          param_attribute = (if whole then None else Some attribute_name)
      in if sat_old \<and> sat_new \<and> sat_attr then
           (let i = StateCall (spy_callback spy) entity param_attribute param_old param_new
                      (dict_merge (spy_kwargs spy) kw)
            in case call i d of
                 (Some e, d1) \<Rightarrow> Raises e (tr @ [i]) d1
               | (None, d1) \<Rightarrow>
                   notify_spies call rest entity attribute_name entry prev_state old_value
                     new_value kw d1 (tr @ [i]))
         else notify_spies call rest entity attribute_name entry prev_state old_value
                new_value kw d tr)"

text \<open>
  \<^verbatim>\<open>set_state\<close> (lines 178-225). \<^verbatim>\<open>previous\<close> and \<^verbatim>\<open>trigger\<close> default to \<^verbatim>\<open>None\<close>;
  the unpacking \<^verbatim>\<open>domain, _ = entity.split(".")\<close> raises \<^verbatim>\<open>ValueError\<close> unless the split
  has exactly two parts.
\<close>

definition set_state ::
  "call \<Rightarrow> HassDriver \<Rightarrow> string \<Rightarrow> pyval \<Rightarrow> string \<Rightarrow> pyval \<Rightarrow> bool option \<Rightarrow> kwargs
     \<Rightarrow> (unit, invocation) outcome" where
  "set_state call d entity state attribute_name previous trigger kw =
     (let trigger1 = (case trigger of None \<Rightarrow> \<not> setup_active d | Some t \<Rightarrow> t)
      in case split_dot entity of
           [domain, object_id] \<Rightarrow>
             (case states_getitem (states d) entity of
                (state_entry, sts) \<Rightarrow>
                  (let prev_state = state_entry;
                       old_value = py_or previous (dict_get prev_state attribute_name);
                       new_value = state
                   in if py_eq old_value new_value then Returns () [] (d\<lparr>states := sts\<rparr>)
                      else
                        (let entry = dict_set attribute_name new_value state_entry;
                             d1 = d\<lparr>states := dict_set entity entry sts\<rparr>
                         in if \<not> trigger1 then Returns () [] d1
                            else notify_spies call
                                   (state_spys d1 (Some domain) @ state_spys d1 (Some entity))
                                   entity attribute_name entry prev_state old_value new_value
                                   kw d1 [])))
         | _ \<Rightarrow> Raises ValueError [] d)"

text \<open>
  \<^verbatim>\<open>_se_get_state\<close> (lines 267-294). The result is a single value for a fully qualified
  entity id and a dictionary of the matching entities for a domain.
\<close>

datatype state_result = Single param | Matched "(string \<times> param) list"

fun match_domain :: "string \<Rightarrow> (string \<times> attrs) list \<Rightarrow> exn + (string \<times> attrs) list" where
  "match_domain entity_id [] = Inr []"
| "match_domain entity_id ((s_eid, st) # rest) =
     (case split_dot s_eid of
        [domain, entity] \<Rightarrow>
          (case match_domain entity_id rest of
             Inl e \<Rightarrow> Inl e
           | Inr ms \<Rightarrow> Inr (if domain = entity_id then (s_eid, st) # ms else ms))
      | _ \<Rightarrow> Inl ValueError)"

definition map_attribute :: "string \<Rightarrow> pyval \<Rightarrow> attrs \<Rightarrow> param" where
  "map_attribute attribute dflt st =
     (let p = (if attribute \<noteq> ''all'' then Value (dict_get st attribute) else Snapshot st)
      in if dflt \<noteq> PNone then (if param_truthy p then p else Value dflt) else p)"

definition se_get_state ::
  "HassDriver \<Rightarrow> string \<Rightarrow> string \<Rightarrow> pyval \<Rightarrow> (state_result, invocation) outcome" where
  "se_get_state d entity_id attribute dflt =
     (if CHR ''.'' \<in> set entity_id then
        (case states_getitem (states d) entity_id of
           (st, sts) \<Rightarrow>
             Returns (Single (map_attribute attribute dflt st)) [] (d\<lparr>states := sts\<rparr>))
      else
        (case match_domain entity_id (states d) of
           Inl e \<Rightarrow> Raises e [] d
         | Inr ms \<Rightarrow>
             Returns (Matched (map (\<lambda>(eid, st). (eid, map_attribute attribute dflt st)) ms))
               [] d))"

text \<open>
  \<^verbatim>\<open>_se_listen_state\<close> (lines 296-307); the handle it returns is a fresh \<^verbatim>\<open>uuid4\<close>, which
  the caller of the model supplies.
\<close>

definition se_listen_state ::
  "handle \<Rightarrow> HassDriver \<Rightarrow> callback \<Rightarrow> string option \<Rightarrow> string option \<Rightarrow> pyval \<Rightarrow> pyval
     \<Rightarrow> kwargs \<Rightarrow> (handle, invocation) outcome" where
  "se_listen_state uuid4 d cb entity attribute new old kw =
     (let spy = \<lparr>spy_callback = cb,
                 spy_attribute =
                   Some (case attribute of None \<Rightarrow> ''state''
                         | Some a \<Rightarrow> if a = [] then ''state'' else a),
                 spy_new = new, spy_old = old, spy_kwargs = kw\<rparr>
      in Returns uuid4 [] (d\<lparr>state_spys := (state_spys d)(entity := state_spys d entity @ [spy])\<rparr>))"

section \<open>Construction, the setup phase and the guarded operations\<close>

text \<open>
  \<^verbatim>\<open>__init__\<close> (lines 54-94). \<^verbatim>\<open>datetime.now()\<close> is the parameter \<open>wall_clock\<close>. The
  \<^verbatim>\<open>time\<close>, \<^verbatim>\<open>datetime\<close> and \<^verbatim>\<open>date\<close> mocks get their \<^verbatim>\<open>return_value\<close> here, from
  \<^verbatim>\<open>self.simulation_time\<close> as it is during construction.
\<close>

definition time_of :: "instant \<Rightarrow> int" where
  "time_of t = t mod 86400"

definition date_of :: "instant \<Rightarrow> int" where
  "date_of t = t div 86400"

definition hass_driver_init :: "bool \<Rightarrow> instant option \<Rightarrow> instant \<Rightarrow> HassDriver" where
  "hass_driver_init upd base_date wall_clock =
     (let base = (case base_date of Some b \<Rightarrow> b | None \<Rightarrow> wall_clock)
      in \<lparr>base_datetime = base, current_datetime = base, setup_active = False,
          mock_time_return_value = time_of base,
          mock_datetime_return_value = base,
          mock_date_return_value = date_of base,
          update_states = upd, states = [], state_spys = (\<lambda>k. []), schedulers = []\<rparr>)"

text \<open>
  Calling a mock that was built with \<^verbatim>\<open>return_value=v\<close> returns \<open>v\<close>: these are
  \<^verbatim>\<open>get_mock("time")()\<close>, \<^verbatim>\<open>get_mock("datetime")()\<close> and \<^verbatim>\<open>get_mock("date")()\<close>.
\<close>

definition mock_time :: "HassDriver \<Rightarrow> int" where
  "mock_time d = mock_time_return_value d"

definition mock_datetime :: "HassDriver \<Rightarrow> instant" where
  "mock_datetime d = mock_datetime_return_value d"

definition mock_date :: "HassDriver \<Rightarrow> int" where
  "mock_date d = mock_date_return_value d"

text \<open>
  \<^verbatim>\<open>with driver.setup(): body\<close> (lines 151-176). The generator sets the flag, yields, and
  clears the flag; an exception of the body is thrown into the generator at the
  \<^verbatim>\<open>yield\<close>, which has no \<^verbatim>\<open>try\<close> around it, so the generator ends there.
\<close>

definition with_setup ::
  "(HassDriver \<Rightarrow> ('a, 't) outcome) \<Rightarrow> HassDriver \<Rightarrow> ('a, 't) outcome" where
  "with_setup body d =
     (case body (d\<lparr>setup_active := True\<rparr>) of
        Raises e tr d1 \<Rightarrow> Raises e tr d1
      | Returns r tr d1 \<Rightarrow> Returns r tr (d1\<lparr>setup_active := False\<rparr>))"

text \<open>
  \<^verbatim>\<open>_set_scheduler\<close> (lines 259-262); \<^verbatim>\<open>str(uuid.uuid4())\<close> is the parameter \<open>uuid4\<close>.
\<close>

definition set_scheduler ::
  "handle \<Rightarrow> HassDriver \<Rightarrow> instant \<Rightarrow> int \<Rightarrow> callback \<Rightarrow> kwargs
     \<Rightarrow> (handle option, invocation) outcome" where
  "set_scheduler uuid4 d st freq cb kw =
     Returns (Some uuid4) []
       (d\<lparr>schedulers := dict_set uuid4 (new_Scheduler st freq cb kw) (schedulers d)\<rparr>)"

text \<open>\<^verbatim>\<open>_se_cancel_timer\<close> (lines 264-265).\<close>

definition se_cancel_timer :: "HassDriver \<Rightarrow> handle \<Rightarrow> (unit, invocation) outcome" where
  "se_cancel_timer d h =
     (case map_of (schedulers d) h of
        None \<Rightarrow> Raises KeyError [] d
      | Some s \<Rightarrow> Returns () [] (d\<lparr>schedulers := dict_set h (s\<lparr>is_canceled := True\<rparr>) (schedulers d)\<rparr>))"

text \<open>
  The decorator \<^verbatim>\<open>possible_side_effects_state_change\<close> (lines 17-27): \<^verbatim>\<open>inner\<close> calls
  \<^verbatim>\<open>fn\<close> when \<^verbatim>\<open>update_states\<close> is set and has no \<^verbatim>\<open>return\<close> statement, so what it returns
  is \<^verbatim>\<open>None\<close> in every case.
\<close>

definition possible_side_effects_state_change ::
  "(HassDriver \<Rightarrow> ('a option, 't) outcome) \<Rightarrow> HassDriver \<Rightarrow> ('a option, 't) outcome" where
  "possible_side_effects_state_change fn d =
     (if update_states d then
        (case fn d of
           Raises e tr d1 \<Rightarrow> Raises e tr d1
         | Returns r tr d1 \<Rightarrow> Returns None tr d1)
      else Returns None [] d)"

text \<open>
  The decorated side effects (lines 227-257). \<^verbatim>\<open>turn_off\<close> and \<^verbatim>\<open>turn_on\<close> pass their
  keyword arguments on to \<^verbatim>\<open>set_state\<close> with \<^verbatim>\<open>**kwargs\<close>, where the keywords
  \<^verbatim>\<open>attribute_name\<close>, \<^verbatim>\<open>previous\<close> and \<^verbatim>\<open>trigger\<close> bind the parameters of
  \<^verbatim>\<open>set_state\<close> of those names (\<^verbatim>\<open>"state"\<close>, \<^verbatim>\<open>None\<close> and \<^verbatim>\<open>None\<close> when absent) and
  all others are its extra keyword arguments \<open>kw\<close>.
\<close>

definition returning_None :: "(unit, 't) outcome \<Rightarrow> (handle option, 't) outcome" where
  "returning_None r =
     (case r of Raises e tr d \<Rightarrow> Raises e tr d | Returns u tr d \<Rightarrow> Returns None tr d)"

definition se_turn_off ::
  "call \<Rightarrow> HassDriver \<Rightarrow> string \<Rightarrow> string \<Rightarrow> pyval \<Rightarrow> bool option \<Rightarrow> kwargs
     \<Rightarrow> (handle option, invocation) outcome" where
  "se_turn_off call d entity_id attribute_name previous trigger kw =
     possible_side_effects_state_change
       (\<lambda>self. returning_None
          (set_state call self entity_id (PStr ''off'') attribute_name previous trigger kw)) d"

definition se_turn_on ::
  "call \<Rightarrow> HassDriver \<Rightarrow> string \<Rightarrow> string \<Rightarrow> pyval \<Rightarrow> bool option \<Rightarrow> kwargs
     \<Rightarrow> (handle option, invocation) outcome" where
  "se_turn_on call d entity_id attribute_name previous trigger kw =
     possible_side_effects_state_change
       (\<lambda>self. returning_None
          (set_state call self entity_id (PStr ''on'') attribute_name previous trigger kw)) d"

definition se_run_at ::
  "handle \<Rightarrow> HassDriver \<Rightarrow> callback \<Rightarrow> instant \<Rightarrow> kwargs \<Rightarrow> (handle option, invocation) outcome" where
  "se_run_at uuid4 d cb st kw =
     possible_side_effects_state_change (\<lambda>self. set_scheduler uuid4 self st 0 cb kw) d"

definition se_run_daily ::
  "handle \<Rightarrow> HassDriver \<Rightarrow> callback \<Rightarrow> instant \<Rightarrow> kwargs \<Rightarrow> (handle option, invocation) outcome" where
  "se_run_daily uuid4 d cb st kw =
     possible_side_effects_state_change
       (\<lambda>self. set_scheduler uuid4 self st (60 * 60 * 24) cb kw) d"

definition se_run_hourly ::
  "handle \<Rightarrow> HassDriver \<Rightarrow> callback \<Rightarrow> instant \<Rightarrow> kwargs \<Rightarrow> (handle option, invocation) outcome" where
  "se_run_hourly uuid4 d cb st kw =
     possible_side_effects_state_change (\<lambda>self. set_scheduler uuid4 self st (60 * 60) cb kw) d"

definition se_run_minutely ::
  "handle \<Rightarrow> HassDriver \<Rightarrow> callback \<Rightarrow> instant \<Rightarrow> kwargs \<Rightarrow> (handle option, invocation) outcome" where
  "se_run_minutely uuid4 d cb st kw =
     possible_side_effects_state_change (\<lambda>self. set_scheduler uuid4 self st 60 cb kw) d"

definition se_run_every ::
  "handle \<Rightarrow> HassDriver \<Rightarrow> callback \<Rightarrow> instant \<Rightarrow> int \<Rightarrow> kwargs
     \<Rightarrow> (handle option, invocation) outcome" where
  "se_run_every uuid4 d cb st interval kw =
     possible_side_effects_state_change (\<lambda>self. set_scheduler uuid4 self st interval cb kw) d"

definition se_run_in ::
  "handle \<Rightarrow> HassDriver \<Rightarrow> callback \<Rightarrow> int \<Rightarrow> kwargs \<Rightarrow> (handle option, invocation) outcome" where
  "se_run_in uuid4 d cb delay kw =
     possible_side_effects_state_change
       (\<lambda>self. set_scheduler uuid4 self (current_datetime self + delay) 0 cb kw) d"

text \<open>
  A test advances the clock step by step
  (\<^verbatim>\<open>for minute in minutes: hass_driver.time_travel_to(...)\<close>); the callbacks invoked by the
  steps are listed one after the other.
\<close>

fun time_travel_through :: "call \<Rightarrow> HassDriver \<Rightarrow> instant list \<Rightarrow> (unit, due) outcome" where
  "time_travel_through call d [] = Returns () [] d"
| "time_travel_through call d (t # ts) =
     (case time_travel_to call d t of
        Raises e tr d1 \<Rightarrow> Raises e tr d1
      | Returns u tr d1 \<Rightarrow>
          (case time_travel_through call d1 ts of
             Raises e tr' d2 \<Rightarrow> Raises e (tr @ tr') d2
           | Returns u' tr' d2 \<Rightarrow> Returns () (tr @ tr') d2))"

section \<open>Reading outcomes\<close>

fun invoked :: "('a, 't) outcome \<Rightarrow> 't list" where
  "invoked (Raises e tr d) = tr"
| "invoked (Returns r tr d) = tr"

fun driver_after :: "('a, 't) outcome \<Rightarrow> HassDriver" where
  "driver_after (Raises e tr d) = d"
| "driver_after (Returns r tr d) = d"

fun returned :: "('a, 't) outcome \<Rightarrow> 'a option" where
  "returned (Raises e tr d) = None"
| "returned (Returns r tr d) = Some r"

fun raised :: "('a, 't) outcome \<Rightarrow> exn option" where
  "raised (Raises e tr d) = Some e"
| "raised (Returns r tr d) = None"

text \<open>
  Callbacks that return normally and leave the clock and the schedule records alone, as
  the counting callbacks of the test suite do.
\<close>

definition quiet :: "call \<Rightarrow> bool" where
  "quiet call \<longleftrightarrow>
     (\<forall>i d. \<exists>d1. call i d = (None, d1) \<and> schedulers d1 = schedulers d \<and>
        current_datetime d1 = current_datetime d)"

section \<open>Example values\<close>

text \<open>A callback that returns without touching the driver, and one that raises.\<close>

definition call_nothing :: call where
  "call_nothing i d = (None, d)"

definition call_raise :: call where
  "call_raise i d = (Some (CallbackError 0), d)"

text \<open>A driver created at instant 0, and the same driver with two timers registered.\<close>

definition fresh_driver :: HassDriver where
  "fresh_driver = hass_driver_init True (Some 0) 0"


text \<open>A driver constructed with \<^verbatim>\<open>update_states=False\<close>.\<close>

definition silent_driver :: HassDriver where
  "silent_driver = hass_driver_init False (Some 0) 0"

text \<open>
  A driver with one observer of \<^verbatim>\<open>light.x\<close>, whose state has been set to \<^verbatim>\<open>"on"\<close>.
\<close>

definition watched_light :: HassDriver where
  "watched_light =
     driver_after (set_state call_nothing
       (driver_after
          (se_listen_state ''u1'' fresh_driver 7 (Some ''light.x'') None PNone PNone []))
       ''light.x'' (PStr ''on'') ''state'' PNone None [])"

text \<open>
  A one-shot timer whose anchor is the current instant; one whose anchor lies before the
  current instant; a repeating timer (period 5) whose anchor 0 lies before the current
  instant 2.
\<close>

definition timer_now :: HassDriver where
  "timer_now = driver_after (se_run_at ''t1'' fresh_driver 1 0 [(''n'', PInt 1)])"

definition late_timer :: HassDriver where
  "late_timer = driver_after (se_run_at ''t1'' (hass_driver_init True (Some 100) 0) 1 50 [])"

definition skewed_timer :: HassDriver where
  "skewed_timer =
     driver_after (se_run_every ''t1'' (hass_driver_init True (Some 2) 0) 1 0 5 [])"


section \<open>Firing order of an advance\<close>


text \<open>An advance to the current instant does nothing; an advance to the past raises.\<close>

lemma time_travel_to_same_instant:
  "time_travel_to call d (simulation_time d) = Returns () [] d"
  by (simp add: time_travel_to_def)

lemma time_travel_to_past:
  "T < simulation_time d \<Longrightarrow> time_travel_to call d T = Raises ValueError [] d"
  by (simp add: time_travel_to_def)



section \<open>The guard on \<^verbatim>\<open>update_states\<close>\<close>

text \<open>
  Claim C10. On a driver constructed with \<^verbatim>\<open>update_states=False\<close>, each registration
  operation (\<^verbatim>\<open>run_at\<close> and \<^verbatim>\<open>run_once\<close>, which share \<^verbatim>\<open>_se_run_at\<close>,
  \<^verbatim>\<open>run_in\<close>, \<^verbatim>\<open>run_every\<close>, \<^verbatim>\<open>run_daily\<close>, \<^verbatim>\<open>run_hourly\<close>, \<^verbatim>\<open>run_minutely\<close>) and
  \<^verbatim>\<open>turn_on\<close> and \<^verbatim>\<open>turn_off\<close> return \<^verbatim>\<open>None\<close>, invoke no callback and leave the
  driver exactly as it was: no record is stored and no entity state is changed.
\<close>

theorem guarded_operations_do_nothing:
  assumes "\<not> update_states d"
  shows "se_run_at u d cb st kw = Returns None [] d \<and>
         se_run_in u d cb delay kw = Returns None [] d \<and>
         se_run_every u d cb st interval kw = Returns None [] d \<and>
         se_run_daily u d cb st kw = Returns None [] d \<and>
         se_run_hourly u d cb st kw = Returns None [] d \<and>
         se_run_minutely u d cb st kw = Returns None [] d \<and>
         se_turn_on call d entity_id attribute_name previous trigger kw = Returns None [] d \<and>
         se_turn_off call d entity_id attribute_name previous trigger kw = Returns None [] d"
  using assms
  by (simp add: se_run_at_def se_run_in_def se_run_every_def se_run_daily_def
      se_run_hourly_def se_run_minutely_def se_turn_on_def se_turn_off_def
      possible_side_effects_state_change_def)

theorem guarded_operations_do_nothing_witness:
  "\<not> update_states silent_driver \<and>
   se_run_at ''t1'' silent_driver 1 600 [] = Returns None [] silent_driver \<and>
   se_run_in ''t1'' silent_driver 1 600 [] = Returns None [] silent_driver \<and>
   se_run_every ''t1'' silent_driver 1 600 90 [] = Returns None [] silent_driver \<and>
   se_run_daily ''t1'' silent_driver 1 600 [] = Returns None [] silent_driver \<and>
   se_run_hourly ''t1'' silent_driver 1 600 [] = Returns None [] silent_driver \<and>
   se_run_minutely ''t1'' silent_driver 1 600 [] = Returns None [] silent_driver \<and>
   se_turn_on call_raise silent_driver ''light.x'' ''state'' PNone None [] =
     Returns None [] silent_driver \<and>
   se_turn_off call_raise silent_driver ''light.x'' ''brightness'' (PInt 3) (Some True)
       [(''n'', PInt 1)] =
     Returns None [] silent_driver"
proof -
  have h: "\<not> update_states silent_driver" by code_simp
  from h guarded_operations_do_nothing [OF h] show ?thesis by blast
qed

text \<open>Whatever the wrapped method returns, the decorated method returns \<^verbatim>\<open>None\<close>.\<close>

lemma decorated_returns_None:
  "returned (possible_side_effects_state_change fn d) \<in> {None, Some None}"
  by (simp add: possible_side_effects_state_change_def split: outcome.splits)

lemma registration_drops_handle:
  "returned (se_run_at u d cb st kw) = Some None"
  "returned (se_run_in u d cb delay kw) = Some None"
  "returned (se_run_every u d cb st interval kw) = Some None"
  "returned (se_run_daily u d cb st kw) = Some None"
  "returned (se_run_hourly u d cb st kw) = Some None"
  "returned (se_run_minutely u d cb st kw) = Some None"
  by (simp_all add: se_run_at_def se_run_in_def se_run_every_def se_run_daily_def
      se_run_hourly_def se_run_minutely_def possible_side_effects_state_change_def
      set_scheduler_def)

text \<open>
  Claim C8 says that every registration operation returns the handle of the new record to
  its caller. On a driver with \<^verbatim>\<open>update_states\<close> set, \<^verbatim>\<open>_set_scheduler\<close> does produce the
  handle and stores the record under it, but each of the six decorated operations returns
  \<^verbatim>\<open>None\<close>: the decorator drops the value.
\<close>

theorem registration_returns_None:
  "update_states fresh_driver \<and>
   returned (se_run_at ''t1'' fresh_driver 1 600 []) = Some None \<and>
   returned (se_run_in ''t1'' fresh_driver 1 600 []) = Some None \<and>
   returned (se_run_every ''t1'' fresh_driver 1 600 90 []) = Some None \<and>
   returned (se_run_daily ''t1'' fresh_driver 1 600 []) = Some None \<and>
   returned (se_run_hourly ''t1'' fresh_driver 1 600 []) = Some None \<and>
   returned (se_run_minutely ''t1'' fresh_driver 1 600 []) = Some None \<and>
   returned (set_scheduler ''t1'' fresh_driver 600 0 1 []) = Some (Some ''t1'') \<and>
   map fst (schedulers (driver_after (se_run_at ''t1'' fresh_driver 1 600 []))) = [''t1'']"
  by code_simp

section \<open>The time accessors\<close>

text \<open>
  Claim C9 says that \<^verbatim>\<open>time()\<close>, \<^verbatim>\<open>datetime()\<close> and \<^verbatim>\<open>date()\<close> return the current
  simulated instant after any advance. A driver created at instant 0 and advanced by 25
  hours has the simulated instant 90000 (day 1, 01:00:00), and the three mocks still return
  the values of instant 0.
\<close>

theorem accessors_keep_construction_time:
  "simulation_time (driver_after (time_travel_to call_nothing fresh_driver 90000)) = 90000 \<and>
   mock_datetime (driver_after (time_travel_to call_nothing fresh_driver 90000)) = 0 \<and>
   time_of 90000 = 3600 \<and>
   mock_time (driver_after (time_travel_to call_nothing fresh_driver 90000)) = 0 \<and>
   date_of 90000 = 1 \<and>
   mock_date (driver_after (time_travel_to call_nothing fresh_driver 90000)) = 0"
  by code_simp

section \<open>The setup phase\<close>

text \<open>
  When the block returns, the flag is cleared; when it raises, the driver is left as the
  block left it.
\<close>

lemma with_setup_normal_exit:
  "body (d\<lparr>setup_active := True\<rparr>) = Returns r tr d1 \<Longrightarrow>
   setup_active (driver_after (with_setup body d)) = False"
  by (simp add: with_setup_def)

lemma with_setup_after_raise:
  "body (d\<lparr>setup_active := True\<rparr>) = Raises e tr d1 \<Longrightarrow>
   driver_after (with_setup body d) = d1"
  by (simp add: with_setup_def)

text \<open>
  Claim C5 says that the setup flag is false again after the scope exits, also when the
  block raises. Here the block raises \<^verbatim>\<open>ValueError\<close> (a \<^verbatim>\<open>set_state\<close> on an entity id
  without a dot): the flag is still true afterwards, and a later \<^verbatim>\<open>set_state\<close> that
  would notify the observer of \<^verbatim>\<open>light.x\<close> notifies nobody.
\<close>

theorem setup_flag_stays_after_exception:
  "raised (with_setup
      (\<lambda>self. set_state call_nothing self ''light'' (PStr ''on'') ''state'' PNone None [])
      watched_light) = Some ValueError \<and>
   setup_active (driver_after (with_setup
      (\<lambda>self. set_state call_nothing self ''light'' (PStr ''on'') ''state'' PNone None [])
      watched_light)) = True \<and>
   invoked (set_state call_nothing (driver_after (with_setup
      (\<lambda>self. set_state call_nothing self ''light'' (PStr ''on'') ''state'' PNone None [])
      watched_light)) ''light.x'' (PStr ''off'') ''state'' PNone None []) = [] \<and>
   invoked (set_state call_nothing watched_light ''light.x'' (PStr ''off'') ''state'' PNone None []) =
     [StateCall 7 ''light.x'' (Some ''state'') (Value (PStr ''on'')) (Value (PStr ''off'')) []]"
  by code_simp

section \<open>Setting an attribute\<close>

text \<open>
  For a stored entity, \<^verbatim>\<open>set_state\<close> does nothing when the value that
  \<^verbatim>\<open>previous or prev_state.get(attribute_name)\<close> yields equals the new value.
\<close>

lemma set_state_equal_values:
  "split_dot entity = [domain, object_id] \<Longrightarrow> map_of (states d) entity = Some a \<Longrightarrow>
   py_eq (py_or previous (dict_get a attribute_name)) v \<Longrightarrow>
   set_state call d entity v attribute_name previous trigger kw = Returns () [] d"
  by (simp add: set_state_def states_getitem_def)

text \<open>
  Claim C6 says that a forced previous value that equals the new value makes
  \<^verbatim>\<open>set_state\<close> a no-op, also when the forced value is falsy. With \<^verbatim>\<open>light.x\<close> at
  \<^verbatim>\<open>"on"\<close>, setting it to 0 with the forced previous value 0 stores 0 and notifies the
  observer with the old value \<^verbatim>\<open>"on"\<close>; the same happens with the empty string and with
  \<^verbatim>\<open>False\<close>.
\<close>

theorem falsy_previous_is_ignored:
  "states watched_light = [(''light.x'', [(''state'', PStr ''on'')])] \<and>
   py_eq (PInt 0) (PInt 0) \<and>
   states (driver_after
     (set_state call_nothing watched_light ''light.x'' (PInt 0) ''state'' (PInt 0) None [])) =
     [(''light.x'', [(''state'', PInt 0)])] \<and>
   invoked (set_state call_nothing watched_light ''light.x'' (PInt 0) ''state'' (PInt 0) None []) =
     [StateCall 7 ''light.x'' (Some ''state'') (Value (PStr ''on'')) (Value (PInt 0)) []] \<and>
   states (driver_after
     (set_state call_nothing watched_light ''light.x'' (PStr '''') ''state'' (PStr '''') None [])) =
     [(''light.x'', [(''state'', PStr '''')])] \<and>
   states (driver_after
     (set_state call_nothing watched_light ''light.x'' (PBool False) ''state'' (PBool False)
        None [])) =
     [(''light.x'', [(''state'', PBool False)])]"
  by code_simp

section \<open>Entity identifiers without a domain separator\<close>

lemma split_dot_no_dot: "CHR ''.'' \<notin> set e \<Longrightarrow> split_dot e = [e]"
  by (induction e) auto

lemma match_domain_well_formed:
  "\<forall>k \<in> set (map fst sts). length (split_dot k) = 2 \<Longrightarrow>
   match_domain e sts = Inr (filter (\<lambda>(k, st). hd (split_dot k) = e) sts)"
proof (induction sts)
  case Nil
  then show ?case by simp
next
  case (Cons p sts)
  obtain k st where p: "p = (k, st)" by (cases p) auto
  from Cons.prems p have "length (split_dot k) = 2" by simp
  then obtain a b where ab: "split_dot k = [a, b]"
    by (cases "split_dot k" rule: list.exhaust) (auto simp: length_Suc_conv)
  from Cons p ab show ?case by simp
qed

lemma states_watched_light:
  "states watched_light = [(''light.x'', [(''state'', PStr ''on'')])]"
  by code_simp

text \<open>
  Claim C7 says that both \<^verbatim>\<open>get\<close> and \<^verbatim>\<open>set\<close> fail on an entity id without the
  separator. \<^verbatim>\<open>get_state\<close> does not: it takes such an id for a domain and returns the
  dictionary of the stored entities of that domain.
\<close>

theorem get_state_of_domain_returns:
  "CHR ''.'' \<notin> set ''light'' \<and>
   raised (se_get_state watched_light ''light'' ''state'' PNone) = None \<and>
   returned (se_get_state watched_light ''light'' ''state'' PNone) =
     Some (Matched [(''light.x'', Value (PStr ''on''))])"
  by code_simp

text \<open>
  Claim C7, amended. For an entity id without the separator, \<^verbatim>\<open>set_state\<close> raises
  \<^verbatim>\<open>ValueError\<close> at once, with no callback invoked and the driver unchanged. \<^verbatim>\<open>get_state\<close>
  does not fail for the missing separator: when every stored entity id splits into a domain
  and an object id, it returns the dictionary of the stored entities whose domain is the
  given id, each with the requested attribute, and leaves the driver unchanged.
\<close>

theorem entity_id_without_separator:
  assumes "CHR ''.'' \<notin> set entity_id"
  shows "set_state call d entity_id v a p trig kw = Raises ValueError [] d \<and>
         (list_all (\<lambda>k. length (split_dot k) = 2) (map fst (states d)) \<longrightarrow>
          se_get_state d entity_id attribute dflt =
            Returns (Matched (map (\<lambda>(eid, st). (eid, map_attribute attribute dflt st))
                       (filter (\<lambda>(k, st). hd (split_dot k) = entity_id) (states d)))) [] d)"
  using assms split_dot_no_dot [OF assms]
  by (simp add: set_state_def se_get_state_def match_domain_well_formed list_all_iff)

theorem entity_id_without_separator_witness:
  "CHR ''.'' \<notin> set ''light'' \<and>
   list_all (\<lambda>k. length (split_dot k) = 2) (map fst (states watched_light)) \<and>
   set_state call_nothing watched_light ''light'' (PStr ''off'') ''state'' PNone None [] =
     Raises ValueError [] watched_light \<and>
   se_get_state watched_light ''light'' ''state'' PNone =
     Returns (Matched [(''light.x'', Value (PStr ''on''))]) [] watched_light"
proof -
  have h: "CHR ''.'' \<notin> set ''light''" by simp
  have w: "list_all (\<lambda>k. length (split_dot k) = 2) (map fst (states watched_light))"
    by (simp add: states_watched_light)
  from entity_id_without_separator [OF h, of call_nothing watched_light "PStr ''off''"
      "''state''" PNone None "[]" "''state''" PNone] h w
  show ?thesis
    by (simp add: states_watched_light map_attribute_def dict_get_def)
qed

section \<open>What an advance does to the schedule records\<close>

lemma due_loop_stop:
  "\<not> (1 \<le> frequency_sec s \<and> nxt \<le> new) \<Longrightarrow> due_loop now new nxt s due = (due, s)"
  by (subst due_loop.simps) auto

lemma due_loop_fire:
  "1 \<le> frequency_sec s \<Longrightarrow> nxt \<le> new \<Longrightarrow> now \<le> nxt \<Longrightarrow>
   due_loop now new nxt s due =
     due_loop now new (nxt + frequency_sec s)
       (s\<lparr>run_count := run_count s + 1, last_run := last_run s + frequency_sec s\<rparr>)
       (due @ [(nxt, callback s, kwargs s)])"
  by (subst due_loop.simps) simp

lemma due_loop_skip:
  "1 \<le> frequency_sec s \<Longrightarrow> nxt \<le> new \<Longrightarrow> \<not> now \<le> nxt \<Longrightarrow>
   due_loop now new nxt s due = due_loop now new (nxt + frequency_sec s) s due"
  by (subst due_loop.simps) simp

lemma due_loop_acc:
  "due_loop now new nxt s (a @ b) =
     (a @ fst (due_loop now new nxt s b), snd (due_loop now new nxt s b))"
proof (induction now new nxt s b arbitrary: a rule: due_loop.induct)
  case (1 now new nxt s b)
  show ?case
  proof (cases "1 \<le> frequency_sec s \<and> nxt \<le> new")
    case False
    then show ?thesis by (simp add: due_loop_stop)
  next
    case go: True
    show ?thesis
    proof (cases "now \<le> nxt")
      case True
      with go have
        "due_loop now new nxt s (a @ b) =
           due_loop now new (nxt + frequency_sec s)
             (s\<lparr>run_count := run_count s + 1, last_run := last_run s + frequency_sec s\<rparr>)
             (a @ (b @ [(nxt, callback s, kwargs s)]))"
        "due_loop now new nxt s b =
           due_loop now new (nxt + frequency_sec s)
             (s\<lparr>run_count := run_count s + 1, last_run := last_run s + frequency_sec s\<rparr>)
             (b @ [(nxt, callback s, kwargs s)])"
        by (simp_all add: due_loop_fire)
      with "1.IH"(1) [OF go True, of a] show ?thesis by simp
    next
      case False
      with go have
        "due_loop now new nxt s (a @ b) = due_loop now new (nxt + frequency_sec s) s (a @ b)"
        "due_loop now new nxt s b = due_loop now new (nxt + frequency_sec s) s b"
        by (simp_all add: due_loop_skip)
      with "1.IH"(2) [OF go False, of a] show ?thesis by simp
    qed
  qed
qed

lemma visit_scheduler_acc:
  "visit_scheduler now new s due =
     (due @ fst (visit_scheduler now new s []), snd (visit_scheduler now new s []))"
  using due_loop_acc [of now new "last_run s" s due "[]"]
  by (simp add: visit_scheduler_def)

lemma collect_due_eq:
  "collect_due now new scheds due =
     (due @ concat (map (\<lambda>(h, s). fst (visit_scheduler now new s [])) scheds),
      map (\<lambda>(h, s). (h, snd (visit_scheduler now new s []))) scheds)"
proof (induction scheds arbitrary: due)
  case Nil
  then show ?case by simp
next
  case (Cons p scheds)
  obtain h s where p: "p = (h, s)" by (cases p) auto
  have v: "visit_scheduler now new s due =
     (due @ fst (visit_scheduler now new s []), snd (visit_scheduler now new s []))"
    by (rule visit_scheduler_acc)
  show ?case
    by (simp add: p v Cons.IH [of "due @ fst (visit_scheduler now new s [])"])
qed

lemma collect_due_fst:
  "fst (collect_due now new scheds due) =
     due @ concat (map (\<lambda>(h, s). fst (visit_scheduler now new s [])) scheds)"
  by (simp add: collect_due_eq)

lemma collect_due_snd:
  "snd (collect_due now new scheds due) =
     map (\<lambda>(h, s). (h, snd (visit_scheduler now new s []))) scheds"
  by (simp add: collect_due_eq)

lemma invoke_all_quiet:
  assumes "quiet call"
  shows "\<exists>d1. invoke_all call xs d tr = Returns () (tr @ xs) d1 \<and>
           schedulers d1 = schedulers d \<and> current_datetime d1 = current_datetime d"
proof (induction xs arbitrary: d tr)
  case Nil
  then show ?case by simp
next
  case (Cons x xs)
  obtain t cb kw where x: "x = (t, cb, kw)" by (cases x) auto
  from assms obtain d1 where d1: "call (TimerCall cb kw) d = (None, d1)"
    "schedulers d1 = schedulers d" "current_datetime d1 = current_datetime d"
    unfolding quiet_def by blast
  from Cons.IH [of d1 "tr @ [x]"] x d1 show ?case by auto
qed

lemma time_travel_to_quiet:
  assumes "quiet call" and "simulation_time d < T"
  shows "\<exists>d1. time_travel_to call d T =
           Returns ()
             (sort_key fst (concat (map (\<lambda>(h, s). fst (visit_scheduler (simulation_time d) T s []))
                (schedulers d)))) d1 \<and>
           schedulers d1 =
             map (\<lambda>(h, s). (h, snd (visit_scheduler (simulation_time d) T s []))) (schedulers d) \<and>
           current_datetime d1 = T"
proof -
  obtain due scheds where
    c: "collect_due (simulation_time d) T (schedulers d) [] = (due, scheds)"
    by (cases "collect_due (simulation_time d) T (schedulers d) []") auto
  from c collect_due_fst [of "simulation_time d" T "schedulers d" "[]"]
  have due: "due = concat (map (\<lambda>(h, s). fst (visit_scheduler (simulation_time d) T s []))
                (schedulers d))" by simp
  from c collect_due_snd [of "simulation_time d" T "schedulers d" "[]"]
  have scheds: "scheds =
     map (\<lambda>(h, s). (h, snd (visit_scheduler (simulation_time d) T s []))) (schedulers d)" by simp
  from invoke_all_quiet [OF assms(1), of "sort_key fst due" "d\<lparr>schedulers := scheds\<rparr>" "[]"]
  obtain d1 where d1: "invoke_all call (sort_key fst due) (d\<lparr>schedulers := scheds\<rparr>) [] =
      Returns () (sort_key fst due) d1" "schedulers d1 = scheds"
      "current_datetime d1 = current_datetime d" by auto
  from assms(2) c d1 have "time_travel_to call d T =
      Returns () (sort_key fst due) (d1\<lparr>current_datetime := T\<rparr>)"
    by (simp add: time_travel_to_def)
  with d1 due scheds show ?thesis by simp
qed

lemma map_of_visited:
  "map_of (map (\<lambda>(h, s). (h, f s)) scheds) h = map_option f (map_of scheds h)"
  by (induction scheds) auto

lemma quiet_call_nothing: "quiet call_nothing"
  by (simp add: quiet_def call_nothing_def)

section \<open>One-shot timers\<close>

lemma late_one_shot_skipped:
  assumes q: "quiet call"
  shows "sorted (simulation_time d # ts) \<Longrightarrow> map_of (schedulers d) h = Some s \<Longrightarrow>
     frequency_sec s < 1 \<Longrightarrow> start s < simulation_time d \<Longrightarrow>
     \<exists>tr d1. time_travel_through call d ts = Returns () tr d1 \<and>
        map_of (schedulers d1) h = Some s \<and>
        simulation_time d1 = last (simulation_time d # ts) \<and>
        (schedulers d = [(h, s)] \<longrightarrow> schedulers d1 = [(h, s)] \<and> tr = [])"
proof (induction ts arbitrary: d)
  case Nil
  then show ?case by simp
next
  case (Cons t ts)
  from Cons.prems(1) have le: "simulation_time d \<le> t" and srt: "sorted (t # ts)" by simp_all
  show ?case
  proof (cases "t = simulation_time d")
    case True
    then have stay: "time_travel_to call d t = Returns () [] d"
      by (simp add: time_travel_to_def)
    from srt True have "sorted (simulation_time d # ts)" by simp
    from Cons.IH [OF this Cons.prems(2-4)] obtain tr d1 where
      r: "time_travel_through call d ts = Returns () tr d1"
      and a1: "map_of (schedulers d1) h = Some s"
      and a2: "simulation_time d1 = last (simulation_time d # ts)"
      and a3: "schedulers d = [(h, s)] \<longrightarrow> schedulers d1 = [(h, s)] \<and> tr = []"
      by blast
    have l: "simulation_time d1 = last (simulation_time d # t # ts)" using a2 True by simp
    from stay r have "time_travel_through call d (t # ts) = Returns () tr d1" by simp
    with a1 l a3 show ?thesis by blast
  next
    case False
    with le have lt: "simulation_time d < t" by simp
    from time_travel_to_quiet [OF q lt] obtain d' where
      d': "time_travel_to call d t =
           Returns ()
             (sort_key fst (concat (map (\<lambda>(h, s). fst (visit_scheduler (simulation_time d) t s []))
                (schedulers d)))) d'"
        "schedulers d' =
           map (\<lambda>(h, s). (h, snd (visit_scheduler (simulation_time d) t s []))) (schedulers d)"
        "current_datetime d' = t" by blast
    from Cons.prems(3,4) have v: "visit_scheduler (simulation_time d) t s [] = ([], s)"
      by (simp add: visit_scheduler_def)
    have now': "simulation_time d' = t" using d'(3) by (simp add: simulation_time_def)
    from d'(2) Cons.prems(2) v have m': "map_of (schedulers d') h = Some s"
      by (simp add: map_of_visited)
    have srt': "sorted (simulation_time d' # ts)" using srt now' by simp
    have late': "start s < simulation_time d'" using Cons.prems(4) lt now' by simp
    from Cons.IH [OF srt' m' Cons.prems(3) late'] obtain tr2 d1 where
      r: "time_travel_through call d' ts = Returns () tr2 d1"
      and a1: "map_of (schedulers d1) h = Some s"
      and a2: "simulation_time d1 = last (simulation_time d' # ts)"
      and a3: "schedulers d' = [(h, s)] \<longrightarrow> schedulers d1 = [(h, s)] \<and> tr2 = []"
      by blast
    let ?tr1 = "sort_key fst (concat (map (\<lambda>(h, s). fst (visit_scheduler (simulation_time d) t s []))
                (schedulers d)))"
    from d'(1) r have res: "time_travel_through call d (t # ts) = Returns () (?tr1 @ tr2) d1"
      by simp
    have b2: "simulation_time d1 = last (simulation_time d # t # ts)" using a2 now' by simp
    have b3: "schedulers d = [(h, s)] \<longrightarrow> schedulers d1 = [(h, s)] \<and> ?tr1 @ tr2 = []"
    proof
      assume one: "schedulers d = [(h, s)]"
      with d'(2) v have "schedulers d' = [(h, s)]" by simp
      with a3 have "schedulers d1 = [(h, s)]" "tr2 = []" by simp_all
      moreover from one v have "?tr1 = []" by simp
      ultimately show "schedulers d1 = [(h, s)] \<and> ?tr1 @ tr2 = []" by simp
    qed
    from res a1 b2 b3 show ?thesis by blast
  qed
qed

text \<open>
  Claim C4 says that a one-shot timer whose anchor lies at or before the current instant
  and that has not fired is fired by the next advance. A timer registered for instant 50
  while the clock is at 100 is skipped by the advance to 200 and its record is unchanged.
\<close>

theorem late_one_shot_never_fires:
  "map_of (schedulers late_timer) ''t1'' = Some (new_Scheduler 50 0 1 []) \<and>
   simulation_time late_timer = 100 \<and>
   invoked (time_travel_to call_nothing late_timer 200) = [] \<and>
   map_of (schedulers (driver_after (time_travel_to call_nothing late_timer 200))) ''t1'' =
     Some (new_Scheduler 50 0 1 [])"
  by code_simp

text \<open>
  Claim C4, amended. Take a one-shot timer (period 0) stored in the driver and an advance
  to a later instant \<open>T\<close>.

  If the timer is not canceled, has not fired and its anchor is the current instant, the
  advance fires it exactly once: the visit of its record adds the one tuple of its anchor,
  callback and keyword arguments to the due tuples and sets its run count to 1. When the
  callbacks return and leave the clock and the records alone, the advance returns at \<open>T\<close>,
  the tuple is among the callbacks invoked (it is the only one when this is the only
  timer), and the stored record has run count 1.

  If the anchor lies strictly before the current instant, the visit of the record adds
  nothing and leaves the record as it is, canceled or not, fired or not. When the callbacks
  return and leave the clock and the records alone, this holds for every advance: after any
  non-decreasing sequence of advances the record is unchanged, and no callback has been
  invoked when this is the only timer.
\<close>

theorem one_shot_at_current_instant_fires_once:
  assumes "map_of (schedulers d) h = Some s" and "frequency_sec s = 0"
    and "simulation_time d < T"
  shows "(\<not> is_canceled s \<and> run_count s = 0 \<and> start s = simulation_time d \<longrightarrow>
            visit_scheduler (simulation_time d) T s due =
              (due @ [(start s, callback s, kwargs s)], s\<lparr>run_count := 1\<rparr>) \<and>
            (quiet call \<longrightarrow>
               (\<exists>tr d1. time_travel_to call d T = Returns () tr d1 \<and>
                  (start s, callback s, kwargs s) \<in> set tr \<and>
                  (schedulers d = [(h, s)] \<longrightarrow> tr = [(start s, callback s, kwargs s)]) \<and>
                  map_of (schedulers d1) h = Some (s\<lparr>run_count := 1\<rparr>) \<and>
                  simulation_time d1 = T))) \<and>
         (start s < simulation_time d \<longrightarrow>
            visit_scheduler (simulation_time d) T s due = (due, s) \<and>
            (quiet call \<and> sorted (simulation_time d # ts) \<longrightarrow>
               (\<exists>tr d1. time_travel_through call d ts = Returns () tr d1 \<and>
                  map_of (schedulers d1) h = Some s \<and>
                  (schedulers d = [(h, s)] \<longrightarrow> tr = []))))"
proof (intro conjI impI)
  assume a: "\<not> is_canceled s \<and> run_count s = 0 \<and> start s = simulation_time d"
  with assms show "visit_scheduler (simulation_time d) T s due =
      (due @ [(start s, callback s, kwargs s)], s\<lparr>run_count := 1\<rparr>)"
    by (simp add: visit_scheduler_def)
next
  assume a: "\<not> is_canceled s \<and> run_count s = 0 \<and> start s = simulation_time d"
    and q: "quiet call"
  from a assms have v: "visit_scheduler (simulation_time d) T s [] =
      ([(start s, callback s, kwargs s)], s\<lparr>run_count := 1\<rparr>)"
    by (simp add: visit_scheduler_def)
  from time_travel_to_quiet [OF q assms(3)] obtain d1 where
    d1: "time_travel_to call d T =
           Returns ()
             (sort_key fst (concat (map (\<lambda>(h, s). fst (visit_scheduler (simulation_time d) T s []))
                (schedulers d)))) d1"
        "schedulers d1 =
           map (\<lambda>(h, s). (h, snd (visit_scheduler (simulation_time d) T s []))) (schedulers d)"
        "current_datetime d1 = T" by blast
  let ?tr = "sort_key fst (concat (map (\<lambda>(h, s). fst (visit_scheduler (simulation_time d) T s []))
                (schedulers d)))"
  from assms(1) have "(h, s) \<in> set (schedulers d)" by (rule map_of_SomeD)
  with v have "(start s, callback s, kwargs s) \<in>
      set (concat (map (\<lambda>(h, s). fst (visit_scheduler (simulation_time d) T s [])) (schedulers d)))"
    by force
  then have c1: "(start s, callback s, kwargs s) \<in> set ?tr" by simp
  have c2: "schedulers d = [(h, s)] \<longrightarrow> ?tr = [(start s, callback s, kwargs s)]"
    using v by simp
  from d1(2) assms(1) v have c3: "map_of (schedulers d1) h = Some (s\<lparr>run_count := 1\<rparr>)"
    by (simp add: map_of_visited)
  have c4: "simulation_time d1 = T" using d1(3) by (simp add: simulation_time_def)
  from d1(1) c1 c2 c3 c4
  show "\<exists>tr d1. time_travel_to call d T = Returns () tr d1 \<and>
          (start s, callback s, kwargs s) \<in> set tr \<and>
          (schedulers d = [(h, s)] \<longrightarrow> tr = [(start s, callback s, kwargs s)]) \<and>
          map_of (schedulers d1) h = Some (s\<lparr>run_count := 1\<rparr>) \<and>
          simulation_time d1 = T" by blast
next
  assume "start s < simulation_time d"
  with assms show "visit_scheduler (simulation_time d) T s due = (due, s)"
    by (simp add: visit_scheduler_def)
next
  assume late: "start s < simulation_time d"
    and q: "quiet call \<and> sorted (simulation_time d # ts)"
  from assms(2) have f: "frequency_sec s < 1" by simp
  from late_one_shot_skipped [OF conjunct1 [OF q] conjunct2 [OF q] assms(1) f late]
  show "\<exists>tr d1. time_travel_through call d ts = Returns () tr d1 \<and>
          map_of (schedulers d1) h = Some s \<and>
          (schedulers d = [(h, s)] \<longrightarrow> tr = [])" by blast
qed

theorem one_shot_at_current_instant_fires_once_witness:
  "map_of (schedulers timer_now) ''t1'' = Some (new_Scheduler 0 0 1 [(''n'', PInt 1)]) \<and>
   frequency_sec (new_Scheduler 0 0 1 [(''n'', PInt 1)]) = 0 \<and>
   simulation_time timer_now < 600 \<and>
   \<not> is_canceled (new_Scheduler 0 0 1 [(''n'', PInt 1)]) \<and>
   run_count (new_Scheduler 0 0 1 [(''n'', PInt 1)]) = 0 \<and>
   start (new_Scheduler 0 0 1 [(''n'', PInt 1)]) = simulation_time timer_now \<and>
   quiet call_nothing \<and>
   schedulers timer_now = [(''t1'', new_Scheduler 0 0 1 [(''n'', PInt 1)])] \<and>
   visit_scheduler (simulation_time timer_now) 600 (new_Scheduler 0 0 1 [(''n'', PInt 1)]) [] =
     ([(0, 1, [(''n'', PInt 1)])], (new_Scheduler 0 0 1 [(''n'', PInt 1)])\<lparr>run_count := 1\<rparr>) \<and>
   (\<exists>tr d1. time_travel_to call_nothing timer_now 600 = Returns () tr d1 \<and>
      tr = [(0, 1, [(''n'', PInt 1)])] \<and>
      map_of (schedulers d1) ''t1'' =
        Some ((new_Scheduler 0 0 1 [(''n'', PInt 1)])\<lparr>run_count := 1\<rparr>) \<and>
      simulation_time d1 = 600) \<and>
   map_of (schedulers late_timer) ''t1'' = Some (new_Scheduler 50 0 1 []) \<and>
   frequency_sec (new_Scheduler 50 0 1 []) = 0 \<and>
   simulation_time late_timer < 200 \<and>
   start (new_Scheduler 50 0 1 []) < simulation_time late_timer \<and>
   sorted (simulation_time late_timer # [200, 300]) \<and>
   schedulers late_timer = [(''t1'', new_Scheduler 50 0 1 [])] \<and>
   visit_scheduler (simulation_time late_timer) 200 (new_Scheduler 50 0 1 []) [] =
     ([], new_Scheduler 50 0 1 []) \<and>
   (\<exists>tr d1. time_travel_through call_nothing late_timer [200, 300] = Returns () tr d1 \<and>
      map_of (schedulers d1) ''t1'' = Some (new_Scheduler 50 0 1 []) \<and> tr = [])"
proof -
  let ?s = "new_Scheduler 0 0 1 [(''n'', PInt 1)]"
  let ?l = "new_Scheduler 50 0 1 []"
  have h1: "map_of (schedulers timer_now) ''t1'' = Some ?s" by code_simp
  have h2: "frequency_sec ?s = 0" and h3: "\<not> is_canceled ?s" and h4: "run_count ?s = 0"
    by (simp_all add: new_Scheduler_def)
  have h5: "start ?s = simulation_time timer_now" by code_simp
  have h6: "simulation_time timer_now < 600" by code_simp
  have h7: "schedulers timer_now = [(''t1'', ?s)]" by code_simp
  have e: "start ?s = 0" "callback ?s = 1" "kwargs ?s = [(''n'', PInt 1)]"
    by (simp_all add: new_Scheduler_def)
  have g1: "map_of (schedulers late_timer) ''t1'' = Some ?l" by code_simp
  have g2: "frequency_sec ?l = 0" by (simp add: new_Scheduler_def)
  have g3: "simulation_time late_timer < 200" by code_simp
  have g4: "start ?l < simulation_time late_timer" by code_simp
  have g5: "sorted (simulation_time late_timer # [200, 300])" by code_simp
  have g6: "schedulers late_timer = [(''t1'', ?l)]" by code_simp
  note a = one_shot_at_current_instant_fires_once [OF h1 h2 h6,
      where due = "[]" and call = call_nothing and ts = "[]"]
  note b = one_shot_at_current_instant_fires_once [OF g1 g2 g3,
      where due = "[]" and call = call_nothing and ts = "[200, 300]"]
  from a h3 h4 h5 have a1: "visit_scheduler (simulation_time timer_now) 600 ?s [] =
      ([(0, 1, [(''n'', PInt 1)])], ?s\<lparr>run_count := 1\<rparr>)"
    unfolding e by simp
  from a h3 h4 h5 h7 quiet_call_nothing
  have a2: "\<exists>tr d1. time_travel_to call_nothing timer_now 600 = Returns () tr d1 \<and>
      tr = [(0, 1, [(''n'', PInt 1)])] \<and>
      map_of (schedulers d1) ''t1'' = Some (?s\<lparr>run_count := 1\<rparr>) \<and>
      simulation_time d1 = 600"
    unfolding e by blast
  from b g4 have b1: "visit_scheduler (simulation_time late_timer) 200 ?l [] = ([], ?l)"
    by simp
  from b g4 g5 g6 quiet_call_nothing
  have b2: "\<exists>tr d1. time_travel_through call_nothing late_timer [200, 300] = Returns () tr d1 \<and>
      map_of (schedulers d1) ''t1'' = Some ?l \<and> tr = []"
    by blast
  from h1 h2 h6 h3 h4 h5 quiet_call_nothing h7 a1 a2 g1 g2 g3 g4 g5 g6 b1 b2
  show ?thesis by (intro conjI)
qed

section \<open>Repeating timers\<close>

text \<open>
  Claim C3 says that after every advance \<^verbatim>\<open>last_run\<close> lies past every generated instant
  of the interval advanced over, also when the anchor lies before the current instant. A
  timer with anchor 0 and period 5, registered while the clock is at 2, is advanced to 10:
  the instants 5 and 10 fire, and \<^verbatim>\<open>last_run\<close> is 10, not 15. The next advance, to 20,
  therefore fires the instant 10 a second time.
\<close>

theorem last_run_lags_behind:
  "map_of (schedulers skewed_timer) ''t1'' = Some (new_Scheduler 0 5 1 []) \<and>
   simulation_time skewed_timer = 2 \<and>
   invoked (time_travel_to call_nothing skewed_timer 10) = [(5, 1, []), (10, 1, [])] \<and>
   map_option last_run
     (map_of (schedulers (driver_after (time_travel_to call_nothing skewed_timer 10))) ''t1'') =
     Some 10 \<and>
   invoked (time_travel_through call_nothing skewed_timer [10, 20]) =
     [(5, 1, []), (10, 1, []), (10, 1, []), (15, 1, []), (20, 1, [])]"
  by code_simp








end
